theory Spec2Isabelle
  imports Complex_Main "HOL-Library.Multiset"
begin

text \<open>
  The daily post generator asks a language model for a post, compares the answer with the
  fifteen most recent posts and asks again, up to a bound, while the answer is too close
  to one of them; then it writes a post to the feed. This theory embeds the comparison
  (\<open>tokenize\<close>, \<open>freq\<close>, \<open>cosineSim\<close>, \<open>ngrams\<close>, \<open>jaccard\<close>,
  \<open>ensureNovelty\<close>), the retry loop of \<open>main\<close> and \<open>writePost\<close>, function by
  function, and proves what they compute.
\<close>

section \<open>JavaScript values used by the generator\<close>

subsection \<open>Numbers\<close>

text \<open>
  A JavaScript Number is \<open>NaN\<close>, an infinity or a finite value. Finite values are
  modelled as exact reals: the rounding of IEEE doubles is not part of this model, and
  negative zero is identified with zero. Every arithmetic operator that the generator
  applies to Numbers is defined here on all four kinds of value.
\<close>

datatype number = NaN | PosInf | NegInf | Num real

definition inf_of_sign :: "real \<Rightarrow> number" where
  "inf_of_sign s = (if 0 < s then PosInf else if s < 0 then NegInf else NaN)"

fun num_sign :: "number \<Rightarrow> real" where
  "num_sign NaN = 0"
| "num_sign PosInf = 1"
| "num_sign NegInf = - 1"
| "num_sign (Num a) = sgn a"

fun num_add :: "number \<Rightarrow> number \<Rightarrow> number" where
  "num_add (Num a) (Num b) = Num (a + b)"
| "num_add NaN y = NaN"
| "num_add x NaN = NaN"
| "num_add PosInf NegInf = NaN"
| "num_add NegInf PosInf = NaN"
| "num_add PosInf y = PosInf"
| "num_add x PosInf = PosInf"
| "num_add NegInf y = NegInf"
| "num_add x NegInf = NegInf"

fun num_mul :: "number \<Rightarrow> number \<Rightarrow> number" where
  "num_mul (Num a) (Num b) = Num (a * b)"
| "num_mul NaN y = NaN"
| "num_mul x NaN = NaN"
| "num_mul x y = inf_of_sign (num_sign x * num_sign y)"

fun num_div :: "number \<Rightarrow> number \<Rightarrow> number" where
  "num_div (Num a) (Num b) = (if b = 0 then inf_of_sign a else Num (a / b))"
| "num_div NaN y = NaN"
| "num_div x NaN = NaN"
| "num_div (Num a) y = Num 0"
| "num_div x (Num b) = inf_of_sign (num_sign x * (if 0 \<le> b then 1 else - 1))"
| "num_div x y = NaN"

fun num_sqrt :: "number \<Rightarrow> number" where
  "num_sqrt NaN = NaN"
| "num_sqrt PosInf = PosInf"
| "num_sqrt NegInf = NaN"
| "num_sqrt (Num a) = (if a < 0 then NaN else Num (sqrt a))"

text \<open>\<open>x > y\<close>: false as soon as one side is \<open>NaN\<close>.\<close>

fun num_gt :: "number \<Rightarrow> number \<Rightarrow> bool" where
  "num_gt (Num a) (Num b) = (b < a)"
| "num_gt NaN y = False"
| "num_gt x NaN = False"
| "num_gt PosInf y = (y \<noteq> PosInf)"
| "num_gt x PosInf = False"
| "num_gt x NegInf = (x \<noteq> NegInf)"
| "num_gt NegInf y = False"

text \<open>\<open>x || d\<close> on Numbers: \<open>0\<close> and \<open>NaN\<close> are falsy.\<close>

fun num_truthy :: "number \<Rightarrow> bool" where
  "num_truthy NaN = False"
| "num_truthy (Num a) = (a \<noteq> 0)"
| "num_truthy x = True"

definition num_or :: "number \<Rightarrow> number \<Rightarrow> number" where
  "num_or x d = (if num_truthy x then x else d)"

subsection \<open>Property values of a plain object\<close>

text \<open>
  \<open>freq\<close> counts tokens in an object literal \<open>{}\<close>, whose prototype is
  \<open>Object.prototype\<close>. Reading \<open>f[t]\<close> therefore yields, besides a stored count or
  \<open>undefined\<close>, a built-in function for every method name of \<open>Object.prototype\<close> and
  the prototype object itself for \<open>__proto__\<close>. Adding \<open>1\<close> to a function or an
  object concatenates its text with \<open>"1"\<close>; \<open>Text\<close> stands for such a string (the
  source text of a function or \<open>[object Object]\<close>, followed by ones): it is non-empty,
  so truthy, and it converts to the Number \<open>NaN\<close>.
\<close>

datatype jsval = Undefined | Numeric number | Builtin | Proto | Text

fun truthy :: "jsval \<Rightarrow> bool" where
  "truthy Undefined = False"
| "truthy (Numeric n) = num_truthy n"
| "truthy v = True"

text \<open>\<open>v || d\<close>\<close>

definition js_or :: "jsval \<Rightarrow> jsval \<Rightarrow> jsval" where
  "js_or v d = (if truthy v then v else d)"

text \<open>\<open>v + 1\<close>\<close>

fun plus_one :: "jsval \<Rightarrow> jsval" where
  "plus_one (Numeric n) = Numeric (num_add n (Num 1))"
| "plus_one Undefined = Numeric NaN"
| "plus_one v = Text"

fun to_number :: "jsval \<Rightarrow> number" where
  "to_number (Numeric n) = n"
| "to_number v = NaN"

text \<open>\<open>x * y\<close> on property values: both operands are converted to Numbers.\<close>

definition js_mul :: "jsval \<Rightarrow> jsval \<Rightarrow> number" where
  "js_mul x y = num_mul (to_number x) (to_number y)"

subsection \<open>Plain objects\<close>

text \<open>
  An object is the list of its own properties in insertion order. (\<open>Object.keys\<close> lists
  keys that look like array indices first; the order of the keys has no influence on the
  sums that \<open>cosineSim\<close> forms from them.)
\<close>

type_synonym obj = "(string \<times> jsval) list"

definition object_prototype_methods :: "string list" where
  "object_prototype_methods =
     [''constructor'', ''hasOwnProperty'', ''isPrototypeOf'', ''propertyIsEnumerable'',
      ''toLocaleString'', ''toString'', ''valueOf'', ''__defineGetter__'',
      ''__defineSetter__'', ''__lookupGetter__'', ''__lookupSetter__'']"

text \<open>\<open>f[k]\<close>: the own property, else what the prototype chain gives.\<close>

definition js_get :: "obj \<Rightarrow> string \<Rightarrow> jsval" where
  "js_get f k =
     (case map_of f k of
        Some v \<Rightarrow> v
      | None \<Rightarrow> if k = ''__proto__'' then Proto
                else if k \<in> set object_prototype_methods then Builtin
                else Undefined)"

fun put :: "string \<Rightarrow> jsval \<Rightarrow> obj \<Rightarrow> obj" where
  "put k v [] = [(k, v)]"
| "put k v (p # ps) = (if fst p = k then (k, v) # ps else p # put k v ps)"

text \<open>
  \<open>f[k] = v\<close>: creates or overwrites the own property, except for \<open>__proto__\<close>, whose
  inherited setter ignores every value that is not an object (and \<open>Proto\<close> already is
  the prototype), so that the object stays as it is.
\<close>

definition js_set :: "obj \<Rightarrow> string \<Rightarrow> jsval \<Rightarrow> obj" where
  "js_set f k v = (if k = ''__proto__'' then f else put k v f)"

definition object_keys :: "obj \<Rightarrow> string list" where
  "object_keys f = map fst f"

subsection \<open>Sets\<close>

text \<open>
  A \<open>Set\<close> is the list of its members in insertion order, without repetition;
  \<open>new Set(xs)\<close> adds the elements of \<open>xs\<close> one by one.
\<close>

definition set_add :: "'a list \<Rightarrow> 'a \<Rightarrow> 'a list" where
  "set_add s x = (if x \<in> set s then s else s @ [x])"

definition new_Set :: "'a list \<Rightarrow> 'a list" where
  "new_Set xs = fold (\<lambda>x s. set_add s x) xs []"

definition has :: "'a list \<Rightarrow> 'a \<Rightarrow> bool" where
  "has s x = (x \<in> set s)"

definition size_of :: "'a list \<Rightarrow> number" where
  "size_of s = Num (real (length s))"

section \<open>Text normalisation\<close>

text \<open>
  Texts are strings of code units below 256 (Latin-1). On these, \<open>\w\<close> is
  \<open>[A-Za-z0-9_]\<close>, \<open>\s\<close> is tab, line feed, vertical tab, form feed, carriage return,
  space and no-break space, and \<open>toLowerCase\<close> maps \<open>A-Z\<close> and the capital letters
  \<open>0xC0-0xDE\<close> (without the multiplication sign \<open>0xD7\<close>) to the letter 32 places up.
\<close>

definition code :: "char \<Rightarrow> nat" where
  "code c = of_char c"

definition is_digit :: "char \<Rightarrow> bool" where
  "is_digit c = (48 \<le> code c \<and> code c \<le> 57)"

definition is_upper :: "char \<Rightarrow> bool" where
  "is_upper c = (65 \<le> code c \<and> code c \<le> 90)"

definition is_lower :: "char \<Rightarrow> bool" where
  "is_lower c = (97 \<le> code c \<and> code c \<le> 122)"

definition is_word :: "char \<Rightarrow> bool" where
  "is_word c = (is_upper c \<or> is_lower c \<or> is_digit c \<or> c = CHR ''_'')"

definition is_space :: "char \<Rightarrow> bool" where
  "is_space c = (code c \<in> {9, 10, 11, 12, 13, 32, 160})"

definition lower_char :: "char \<Rightarrow> char" where
  "lower_char c =
     (if is_upper c \<or> (192 \<le> code c \<and> code c \<le> 222 \<and> code c \<noteq> 215)
      then char_of (code c + 32) else c)"

definition toLowerCase :: "string \<Rightarrow> string" where
  "toLowerCase s = map lower_char s"

text \<open>\<open>s.replace(/[#*_`~>]/g, ' ')\<close>\<close>

definition is_marker :: "char \<Rightarrow> bool" where
  "is_marker c = (c \<in> set ''#*_`~>'')"

definition replace_markers :: "string \<Rightarrow> string" where
  "replace_markers s = map (\<lambda>c. if is_marker c then CHR '' '' else c) s"

text \<open>\<open>s.replace(/[^\w\s]/g, ' ')\<close>\<close>

definition replace_nonword :: "string \<Rightarrow> string" where
  "replace_nonword s = map (\<lambda>c. if \<not> is_word c \<and> \<not> is_space c then CHR '' '' else c) s"

text \<open>
  \<open>s.split(/\s+/)\<close>: the pieces between maximal runs of white space, the empty pieces at
  both ends included. \<open>cur\<close> is the piece being read, reversed; \<open>insep\<close> tells that the
  previous character was white space.
\<close>

fun split_loop :: "bool \<Rightarrow> string \<Rightarrow> string \<Rightarrow> string list" where
  "split_loop insep cur [] = [rev cur]"
| "split_loop insep cur (c # cs) =
     (if is_space c
      then (if insep then split_loop True cur cs else rev cur # split_loop True [] cs)
      else split_loop False (c # cur) cs)"

definition split_ws :: "string \<Rightarrow> string list" where
  "split_ws s = split_loop False [] s"

definition STOP :: "string list" where
  "STOP = [''the'', ''a'', ''and'', ''or'', ''but'', ''if'', ''then'', ''to'', ''of'', ''in'',
           ''on'', ''for'', ''at'', ''is'', ''are'', ''be'', ''as'', ''it'', ''that'', ''this'',
           ''with'', ''by'', ''an'', ''from'', ''we'', ''you'', ''i'']"

definition tokenize :: "string \<Rightarrow> string list" where
  "tokenize text =
     filter (\<lambda>t. t \<noteq> [] \<and> \<not> has STOP t)
       (split_ws (replace_nonword (replace_markers (toLowerCase text))))"

text \<open>
  \<open>s.replace(/<[^>]+>/g, ' ')\<close>: a match starts at a \<open><\<close>, takes the longest run of
  characters other than \<open>>\<close>, which must not be empty, and the \<open>>\<close> that follows it.
\<close>

function stripHtml :: "string \<Rightarrow> string" where
  "stripHtml [] = []"
| "stripHtml (c # cs) =
     (if c = CHR ''<'' \<and> takeWhile (\<lambda>d. d \<noteq> CHR ''>'') cs \<noteq> []
          \<and> dropWhile (\<lambda>d. d \<noteq> CHR ''>'') cs \<noteq> []
      then CHR '' '' # stripHtml (tl (dropWhile (\<lambda>d. d \<noteq> CHR ''>'') cs))
      else c # stripHtml cs)"
  by pat_completeness auto
termination
proof (relation "measure length")
  fix c :: char and cs :: string
  have "length (dropWhile (\<lambda>d. d \<noteq> CHR ''>'') cs) \<le> length cs"
    by (rule length_dropWhile_le)
  then show "(tl (dropWhile (\<lambda>d. d \<noteq> CHR ''>'') cs), c # cs) \<in> measure length"
    by simp
qed simp_all

declare stripHtml.simps [simp del]

section \<open>Similarity measures\<close>

text \<open>\<open>tokens.forEach(t => f[t] = (f[t] || 0) + 1)\<close>\<close>

definition freq_step :: "string \<Rightarrow> obj \<Rightarrow> obj" where
  "freq_step t f = js_set f t (plus_one (js_or (js_get f t) (Numeric (Num 0))))"

definition freq :: "string list \<Rightarrow> obj" where
  "freq tokens = fold freq_step tokens []"

text \<open>The body of the loop over \<open>terms\<close>, on the triple \<open>(dot, magA, magB)\<close>.\<close>

definition cosine_step :: "obj \<Rightarrow> obj \<Rightarrow> string \<Rightarrow> number \<times> number \<times> number
    \<Rightarrow> number \<times> number \<times> number" where
  "cosine_step A B t acc =
     (case acc of (dot, magA, magB) \<Rightarrow>
        let x = js_or (js_get A t) (Numeric (Num 0));
            y = js_or (js_get B t) (Numeric (Num 0))
        in (num_add dot (js_mul x y), num_add magA (js_mul x x), num_add magB (js_mul y y)))"

definition cosineSim :: "string list \<Rightarrow> string list \<Rightarrow> number" where
  "cosineSim a b =
     (let A = freq a; B = freq b;
          terms = new_Set (object_keys A @ object_keys B)
      in case fold (cosine_step A B) terms (Num 0, Num 0, Num 0) of
           (dot, magA, magB) \<Rightarrow>
             num_div dot (num_or (num_mul (num_sqrt magA) (num_sqrt magB)) (Num 1)))"

text \<open>\<open>xs.join(sep)\<close> and \<open>xs.slice(i, j)\<close> for \<open>0 \<le> i\<close>.\<close>

fun join :: "string \<Rightarrow> string list \<Rightarrow> string" where
  "join sep [] = []"
| "join sep [x] = x"
| "join sep (x # y # ys) = x @ sep @ join sep (y # ys)"

definition slice :: "'a list \<Rightarrow> nat \<Rightarrow> nat \<Rightarrow> 'a list" where
  "slice xs i j = take (j - i) (drop i xs)"

text \<open>
  \<open>for (let i=0; i<=tokens.length-n; i++) out.push(tokens.slice(i,i+n).join(' '))\<close>;
  the bound \<open>tokens.length - n\<close> may be negative.
\<close>

function ngrams_loop :: "string list \<Rightarrow> nat \<Rightarrow> nat \<Rightarrow> string list \<Rightarrow> string list" where
  "ngrams_loop tokens n i out =
     (if int i \<le> int (length tokens) - int n
      then ngrams_loop tokens n (i + 1) (out @ [join '' '' (slice tokens i (i + n))])
      else out)"
  by pat_completeness auto
termination
  by (relation "measure (\<lambda>(tokens, n, i, out). Suc (length tokens) - (n + i))") auto

declare ngrams_loop.simps [simp del]

definition ngrams :: "string list \<Rightarrow> nat \<Rightarrow> string list" where
  "ngrams tokens n = ngrams_loop tokens n 0 []"

definition jaccard :: "string list \<Rightarrow> string list \<Rightarrow> number" where
  "jaccard aSet bSet =
     (let inter = new_Set (filter (\<lambda>x. has bSet x) aSet);
          uni = new_Set (aSet @ bSet)
      in num_div (size_of inter) (num_or (size_of uni) (Num 1)))"

section \<open>The novelty guard\<close>

record verdict =
  ok :: bool
  hint :: "string option"

text \<open>The loop over the recent posts; it returns at the first post that is too close.\<close>

fun novelty_loop :: "string list \<Rightarrow> string list \<Rightarrow> string list \<Rightarrow> verdict" where
  "novelty_loop candTokens candTri [] = \<lparr>ok = True, hint = None\<rparr>"
| "novelty_loop candTokens candTri (html # rest) =
     (let prev = stripHtml html;
          prevTokens = tokenize prev;
          cos = cosineSim candTokens prevTokens;
          tri = new_Set (ngrams prevTokens 3);
          jac = jaccard candTri tri
      in if num_gt cos (Num 0.78) \<or> num_gt jac (Num 0.32)
         then \<lparr>ok = False,
               hint = Some ''Change structure and examples; focus on a different facet (policy, ROI, or onboarding). Avoid repeating phrases.''\<rparr>
         else novelty_loop candTokens candTri rest)"

definition ensureNovelty :: "string \<Rightarrow> string list \<Rightarrow> verdict" where
  "ensureNovelty candidate recentHtmlArray =
     (let candTokens = tokenize (stripHtml candidate);
          candTri = new_Set (ngrams candTokens 3)
      in novelty_loop candTokens candTri recentHtmlArray)"

text \<open>
  The rejection rule in the words of the specification: the candidate is too close to a
  reference when their cosine similarity exceeds 0.78 or the Jaccard similarity of their
  trigram sets exceeds 0.32.
\<close>

definition too_similar :: "string \<Rightarrow> string \<Rightarrow> bool" where
  "too_similar candidate reference =
     (num_gt (cosineSim (tokenize (stripHtml candidate)) (tokenize (stripHtml reference)))
        (Num 0.78)
      \<or> num_gt (jaccard (new_Set (ngrams (tokenize (stripHtml candidate)) 3))
                        (new_Set (ngrams (tokenize (stripHtml reference)) 3)))
           (Num 0.32))"

section \<open>Writing a post and the retry loop\<close>

record post =
  id' :: string
  date :: string
  title :: string
  html :: string
  hashtags :: "string list"
  sources :: "string list"
  permalink :: string

text \<open>
  What the generator takes from outside or from helpers that only shape the written
  entry: the SHA-1 digest in hexadecimal, the time stamp taken at start-up, and the
  functions that render the body and derive title and hashtags from it.
\<close>

record env =
  sha1_hex :: "string \<Rightarrow> string"
  todayISO :: string
  toHtml :: "string \<Rightarrow> string"
  deriveTitle :: "string \<Rightarrow> string"
  titleFrom :: "string \<Rightarrow> string"
  deriveHashtags :: "string \<Rightarrow> string list"

text \<open>\<open>writePost\<close> returns the list of posts that it writes to the data file.\<close>

definition writePost :: "env \<Rightarrow> post list \<Rightarrow> string \<Rightarrow> string \<Rightarrow> string list \<Rightarrow> post list" where
  "writePost e posts body ttl tags =
     (let ident = slice (sha1_hex e (body @ todayISO e)) 0 12;
          markup = toHtml e body;
          entry = \<lparr>id' = ident, date = todayISO e, title = ttl, html = markup,
                   hashtags = tags, sources = [], permalink = []\<rparr>;
          updated = slice (entry # posts) 0 365
      in updated)"

text \<open>
  The language model is an oracle: \<open>chat k\<close> is the outcome of the request number \<open>k\<close>
  (from 0), either the text it returns or the error that \<open>chat\<close> throws. The prompts,
  and with them the trends and the randomly picked angle, act on a run only through what
  the oracle answers. \<open>main\<close> is modelled from the point where the posts have been
  read from the data file. A run of \<open>main\<close> that writes a post reports the body it
  passed to \<open>writePost\<close>, the posts written to the data file and the number of
  requests it made.
\<close>

datatype error = ChatError

record run =
  written :: string
  data_file :: "post list"
  calls :: nat

text \<open>
  \<open>while (!isUnique.ok && attempts < 5) { ... attempts++ }\<close> followed by
  \<open>writePost(posts, generated, title, hashtags)\<close>.
\<close>

function retry_loop :: "env \<Rightarrow> (nat \<Rightarrow> error + string) \<Rightarrow> post list \<Rightarrow> string
    \<Rightarrow> string \<Rightarrow> string list \<Rightarrow> verdict \<Rightarrow> nat \<Rightarrow> error + run" where
  "retry_loop e chat posts generated ttl tags isUnique attempts =
     (if \<not> ok isUnique \<and> attempts < 5
      then (case chat attempts of
              Inl err \<Rightarrow> Inl err
            | Inr alt \<Rightarrow>
                if ok (ensureNovelty alt (map html (slice posts 0 15)))
                then Inr \<lparr>written = alt,
                          data_file = writePost e posts alt (titleFrom e alt) (deriveHashtags e alt),
                          calls = attempts + 1\<rparr>
                else retry_loop e chat posts generated ttl tags isUnique (attempts + 1))
      else Inr \<lparr>written = generated,
                data_file = writePost e posts generated ttl tags,
                calls = attempts\<rparr>)"
  by pat_completeness auto
termination
  by (relation "measure (\<lambda>(e, chat, posts, generated, ttl, tags, isUnique, attempts). 5 - attempts)")
    auto

declare retry_loop.simps [simp del]

definition main :: "env \<Rightarrow> (nat \<Rightarrow> error + string) \<Rightarrow> post list \<Rightarrow> error + run" where
  "main e chat posts =
     (let last15 = slice posts 0 15
      in case chat 0 of
           Inl err \<Rightarrow> Inl err
         | Inr generated \<Rightarrow>
             let ttl = deriveTitle e generated;
                 tags = deriveHashtags e generated;
                 isUnique = ensureNovelty generated (map html last15)
             in retry_loop e chat posts generated ttl tags isUnique 1)"

section \<open>Notions used in the statements\<close>

text \<open>
  The property names that a plain object inherits from \<open>Object.prototype\<close>. A token
  with such a name is not counted by \<open>freq\<close> like the others.
\<close>

definition inherited :: "string \<Rightarrow> bool" where
  "inherited k = (k = ''__proto__'' \<or> k \<in> set object_prototype_methods)"

text \<open>\<open>counts f c\<close>: the object \<open>f\<close> stores exactly the positive counts of \<open>c\<close>.\<close>

definition counts :: "obj \<Rightarrow> (string \<Rightarrow> nat) \<Rightarrow> bool" where
  "counts f c =
     (\<forall>k. map_of f k = (if c k = 0 then None else Some (Numeric (Num (real (c k))))))"

text \<open>The dot product of the term-frequency vectors of two token sequences.\<close>

definition dotp :: "string list \<Rightarrow> string list \<Rightarrow> real" where
  "dotp a b = (\<Sum>t\<in>set a \<union> set b. real (count_list a t) * real (count_list b t))"

subsection \<open>A sample run\<close>

text \<open>
  One earlier post, and a language model that answers every request with the words of
  that post, in five spellings.
\<close>

definition sample_env :: env where
  "sample_env =
     \<lparr>sha1_hex = (\<lambda>s. ''da39a3ee5e6b4b0d3255bfef95601890afd80709''),
      todayISO = ''2026-01-05T09:00:00.000Z'',
      toHtml = (\<lambda>s. ''<p>'' @ s @ ''</p>''),
      deriveTitle = (\<lambda>s. take 100 s),
      titleFrom = (\<lambda>s. take 100 s),
      deriveHashtags = (\<lambda>s. [''ArtificialIntelligence'', ''UserExperience'', ''FutureOfWork''])\<rparr>"

definition sample_posts :: "post list" where
  "sample_posts =
     [\<lparr>id' = ''0123456789ab'', date = ''2026-01-04T09:00:00.000Z'',
       title = ''Agents need guardrails'', html = ''<p>Agents need guardrails</p>'',
       hashtags = [''FutureOfWork''], sources = [], permalink = []\<rparr>]"

definition stubborn_chat :: "nat \<Rightarrow> error + string" where
  "stubborn_chat k =
     (if k < 5
      then Inr ([''Agents need guardrails'', ''Agents need guardrails!'',
                 ''AGENTS need guardrails.'', ''Agents *need* guardrails'',
                 ''agents, need, guardrails''] ! k)
      else Inl ChatError)"

section \<open>Sets and n-grams\<close>

lemma set_new_Set_aux: "set (fold (\<lambda>x s. set_add s x) xs acc) = set xs \<union> set acc"
  by (induction xs arbitrary: acc) (auto simp: set_add_def)

lemma distinct_new_Set_aux: "distinct acc \<Longrightarrow> distinct (fold (\<lambda>x s. set_add s x) xs acc)"
  by (induction xs arbitrary: acc) (auto simp: set_add_def)

lemma set_new_Set: "set (new_Set xs) = set xs"
  by (simp add: new_Set_def set_new_Set_aux)

lemma distinct_new_Set: "distinct (new_Set xs)"
  by (simp add: new_Set_def distinct_new_Set_aux)

lemma length_new_Set: "length (new_Set xs) = card (set xs)"
  using distinct_card [OF distinct_new_Set, of xs] by (simp add: set_new_Set)

lemma length_new_Set_le: "length (new_Set xs) \<le> length xs"
  by (simp add: length_new_Set card_length)

text \<open>The loop of \<open>ngrams\<close> appends one entry for every start index up to the bound.\<close>

lemma ngrams_loop_closed:
  "ngrams_loop tokens n i out =
     out @ map (\<lambda>k. join '' '' (slice tokens k (k + n))) [i ..< Suc (length tokens) - n]"
proof (induction tokens n i out rule: ngrams_loop.induct)
  case (1 tokens n i out)
  show ?case
  proof (cases "int i \<le> int (length tokens) - int n")
    case True
    then have lt: "i < Suc (length tokens) - n" by linarith
    have "ngrams_loop tokens n i out =
        ngrams_loop tokens n (i + 1) (out @ [join '' '' (slice tokens i (i + n))])"
      using True by (subst ngrams_loop.simps) simp
    also have "\<dots> = (out @ [join '' '' (slice tokens i (i + n))]) @
        map (\<lambda>k. join '' '' (slice tokens k (k + n))) [i + 1 ..< Suc (length tokens) - n]"
      using "1.IH" [OF True] .
    also have "\<dots> = out @ map (\<lambda>k. join '' '' (slice tokens k (k + n))) [i ..< Suc (length tokens) - n]"
      using lt by (simp add: upt_conv_Cons)
    finally show ?thesis .
  next
    case False
    then have ge: "Suc (length tokens) - n \<le> i" by linarith
    have "ngrams_loop tokens n i out = out"
      using False by (subst ngrams_loop.simps) simp
    with ge show ?thesis by simp
  qed
qed

lemma ngrams_closed:
  "ngrams tokens n = map (\<lambda>k. join '' '' (slice tokens k (k + n))) [0 ..< Suc (length tokens) - n]"
  by (simp add: ngrams_def ngrams_loop_closed)

lemma slice3:
  assumes "i + 2 < length xs"
  shows "slice xs i (i + 3) = [xs ! i, xs ! (i + 1), xs ! (i + 2)]"
proof -
  have "3 \<le> length (drop i xs)" using assms by simp
  then obtain a1 a2 a3 r where d: "drop i xs = a1 # a2 # a3 # r"
    by (metis Suc_le_length_iff numeral_3_eq_3)
  then have "take 3 (drop i xs) = [drop i xs ! 0, drop i xs ! 1, drop i xs ! 2]"
    by simp
  then show ?thesis using assms by (simp add: slice_def)
qed

text \<open>
  C8. For a token sequence of length \<open>L\<close>, \<open>ngrams(tokens, 3)\<close> has exactly
  \<open>max(0, L - 2)\<close> entries, the entry at index \<open>i\<close> is the three tokens from index
  \<open>i\<close> on, joined by single spaces, and the set built from the entries has at most
  \<open>L - 2\<close> members.
\<close>

theorem ngrams_count:
  "int (length (ngrams tokens 3)) = max 0 (int (length tokens) - 2)
   \<and> (\<forall>i. i + 2 < length tokens \<longrightarrow>
         ngrams tokens 3 ! i = tokens ! i @ '' '' @ tokens ! (i + 1) @ '' '' @ tokens ! (i + 2))
   \<and> length (new_Set (ngrams tokens 3)) \<le> length tokens - 2"
proof (intro conjI allI impI)
  show "int (length (ngrams tokens 3)) = max 0 (int (length tokens) - 2)"
    by (simp add: ngrams_closed)
next
  fix i assume a: "i + 2 < length tokens"
  then have "i < Suc (length tokens) - 3" by simp
  then have "ngrams tokens 3 ! i = join '' '' (slice tokens i (i + 3))"
    by (simp add: ngrams_closed del: upt_Suc)
  then show "ngrams tokens 3 ! i = tokens ! i @ '' '' @ tokens ! (i + 1) @ '' '' @ tokens ! (i + 2)"
    using slice3 [OF a] by simp
next
  have "length (new_Set (ngrams tokens 3)) \<le> length (ngrams tokens 3)"
    by (rule length_new_Set_le)
  then show "length (new_Set (ngrams tokens 3)) \<le> length tokens - 2"
    by (simp add: ngrams_closed)
qed

theorem ngrams_count_witness:
  "(1::nat) + 2 < length [''ship'', ''small'', ''agents'', ''daily'']
   \<and> ngrams [''ship'', ''small'', ''agents'', ''daily''] 3 ! 1 = ''small agents daily''
   \<and> int (length (ngrams [''ship'', ''small'', ''agents'', ''daily''] 3)) = 2
   \<and> length (new_Set (ngrams [''ship'', ''small'', ''agents'', ''daily''] 3)) \<le> 2"
proof -
  have h: "(1::nat) + 2 < length [''ship'', ''small'', ''agents'', ''daily'']" by simp
  have all: "\<forall>i. i + 2 < length [''ship'', ''small'', ''agents'', ''daily''] \<longrightarrow>
      ngrams [''ship'', ''small'', ''agents'', ''daily''] 3 ! i =
        [''ship'', ''small'', ''agents'', ''daily''] ! i @ '' '' @
        [''ship'', ''small'', ''agents'', ''daily''] ! (i + 1) @ '' '' @
        [''ship'', ''small'', ''agents'', ''daily''] ! (i + 2)"
    using ngrams_count [of "[''ship'', ''small'', ''agents'', ''daily'']"] by blast
  have "ngrams [''ship'', ''small'', ''agents'', ''daily''] 3 ! 1 = ''small agents daily''"
    using all [rule_format, OF h] by simp
  then show ?thesis
    using h ngrams_count [of "[''ship'', ''small'', ''agents'', ''daily'']"] by simp
qed

text \<open>Repeated trigrams make the set smaller than the list: four equal tokens give one.\<close>

lemma ngrams_set_can_shrink:
  "length (ngrams [''go'', ''go'', ''go'', ''go''] 3) = 2
   \<and> new_Set (ngrams [''go'', ''go'', ''go'', ''go''] 3) = [''go go go'']"
  by code_simp

section \<open>The feed\<close>

text \<open>
  C10. \<open>writePost\<close> writes the new entry followed by the previous posts in their order,
  cut after 365 entries: the first 364 previous posts are kept as they are, and the
  written feed never has more than 365 entries.
\<close>

theorem writePost_feed:
  "writePost e posts body ttl tags =
     \<lparr>id' = take 12 (sha1_hex e (body @ todayISO e)), date = todayISO e, title = ttl,
      html = toHtml e body, hashtags = tags, sources = [], permalink = []\<rparr> # take 364 posts
   \<and> length (writePost e posts body ttl tags) = min 365 (Suc (length posts))
   \<and> length (writePost e posts body ttl tags) \<le> 365"
  by (simp add: writePost_def slice_def Let_def take_Cons')

section \<open>The tokenizer\<close>

lemma space_is_space: "is_space (CHR '' '')"
  by (simp add: is_space_def code_def)

lemma code_less_256: "code c < 256"
proof -
  have "of_char c mod 256 = (of_char c :: nat)" by (rule of_char_mod_256)
  then show ?thesis unfolding code_def by (metis mod_less_divisor zero_less_numeral)
qed

lemma lower_char_not_upper: "\<not> is_upper (lower_char c)"
proof -
  have "code (char_of (code c + 32)) = (code c + 32) mod 256"
    by (simp add: code_def)
  then show ?thesis
    using code_less_256 [of c]
    by (auto simp: lower_char_def is_upper_def mod_if)
qed

lemma underscore_is_marker: "is_marker (CHR ''_'')"
  by (simp add: is_marker_def)

lemma normalised_char:
  "is_space ((\<lambda>c. if \<not> is_word c \<and> \<not> is_space c then CHR '' '' else c)
              ((\<lambda>c. if is_marker c then CHR '' '' else c) (lower_char c)))
   \<or> (let d = (\<lambda>c. if \<not> is_word c \<and> \<not> is_space c then CHR '' '' else c)
              ((\<lambda>c. if is_marker c then CHR '' '' else c) (lower_char c))
      in (is_lower d \<or> is_digit d) \<and> \<not> is_marker d)"
  using lower_char_not_upper [of c] underscore_is_marker space_is_space
  by (auto simp: is_word_def Let_def)

lemma split_loop_chars:
  "t \<in> set (split_loop b cur s) \<Longrightarrow> c \<in> set t \<Longrightarrow> c \<in> set cur \<or> (c \<in> set s \<and> \<not> is_space c)"
proof (induction s arbitrary: b cur t)
  case Nil
  then show ?case by simp
next
  case (Cons a s)
  show ?case
  proof (cases "is_space a")
    case True
    show ?thesis
    proof (cases b)
      case True
      with \<open>is_space a\<close> Cons.prems have "t \<in> set (split_loop True cur s)" by simp
      from Cons.IH [OF this Cons.prems(2)] show ?thesis by auto
    next
      case False
      with \<open>is_space a\<close> Cons.prems have "t = rev cur \<or> t \<in> set (split_loop True [] s)" by simp
      then show ?thesis
      proof
        assume "t = rev cur"
        with Cons.prems(2) show ?thesis by simp
      next
        assume "t \<in> set (split_loop True [] s)"
        from Cons.IH [OF this Cons.prems(2)] show ?thesis by auto
      qed
    qed
  next
    case False
    with Cons.prems have "t \<in> set (split_loop False (a # cur) s)" by simp
    from Cons.IH [OF this Cons.prems(2)] False show ?thesis by auto
  qed
qed

lemma tokenize_chars:
  assumes "t \<in> set (tokenize x)" and "c \<in> set t"
  shows "(is_lower c \<or> is_digit c) \<and> \<not> is_marker c \<and> \<not> is_space c"
proof -
  let ?s = "replace_nonword (replace_markers (toLowerCase x))"
  from assms(1) have "t \<in> set (split_loop False [] ?s)"
    by (simp add: tokenize_def split_ws_def)
  from split_loop_chars [OF this assms(2)] have c: "c \<in> set ?s" "\<not> is_space c" by auto
  have "?s = map (\<lambda>c. (\<lambda>c. if \<not> is_word c \<and> \<not> is_space c then CHR '' '' else c)
              ((\<lambda>c. if is_marker c then CHR '' '' else c) (lower_char c))) x"
    by (simp add: replace_nonword_def replace_markers_def toLowerCase_def)
  with c(1) have "c \<in> (\<lambda>c. (\<lambda>c. if \<not> is_word c \<and> \<not> is_space c then CHR '' '' else c)
              ((\<lambda>c. if is_marker c then CHR '' '' else c) (lower_char c))) ` set x"
    by simp
  then obtain c0 where
    c0: "c = (\<lambda>c. if \<not> is_word c \<and> \<not> is_space c then CHR '' '' else c)
              ((\<lambda>c. if is_marker c then CHR '' '' else c) (lower_char c0))"
    by (rule imageE)
  from normalised_char [of c0] c(2) show ?thesis
    unfolding Let_def c0 [symmetric] by blast
qed

lemma tokenize_inherited:
  assumes "t \<in> set (tokenize x)" and "inherited t"
  shows "t = ''constructor''"
proof -
  have "\<forall>c\<in>set t. is_lower c \<or> is_digit c"
    using tokenize_chars [OF assms(1)] by blast
  with assms(2) show ?thesis
    by (auto simp: inherited_def object_prototype_methods_def is_lower_def is_digit_def code_def)
qed

section \<open>Term frequencies and cosine similarity\<close>

subsection \<open>Tokens that are counted\<close>

lemma map_of_put: "map_of (put k v f) = (map_of f)(k \<mapsto> v)"
  by (induction f) (auto simp: fun_eq_iff)

lemma counts_empty: "counts [] (\<lambda>k. 0)"
  by (simp add: counts_def)

lemma freq_step_counts:
  assumes "counts f c" and "\<not> inherited t"
  shows "counts (freq_step t f) (c(t := Suc (c t)))"
proof -
  have get: "plus_one (js_or (js_get f t) (Numeric (Num 0))) = Numeric (Num (real (Suc (c t))))"
  proof (cases "c t = 0")
    case True
    with assms have "js_get f t = Undefined"
      by (simp add: counts_def js_get_def inherited_def)
    then show ?thesis using True by (simp add: js_or_def)
  next
    case False
    with assms have "js_get f t = Numeric (Num (real (c t)))"
      by (simp add: counts_def js_get_def)
    then show ?thesis using False by (simp add: js_or_def)
  qed
  have "freq_step t f = put t (Numeric (Num (real (Suc (c t))))) f"
    using assms(2) get by (simp add: freq_step_def js_set_def inherited_def)
  then show ?thesis
    using assms(1) by (simp add: counts_def map_of_put)
qed

lemma fold_freq_step_counts:
  "\<forall>t\<in>set ts. \<not> inherited t \<Longrightarrow> counts f c \<Longrightarrow>
   counts (fold freq_step ts f) (\<lambda>k. c k + count_list ts k)"
proof (induction ts arbitrary: f c)
  case Nil
  then show ?case by simp
next
  case (Cons t ts)
  have "counts (freq_step t f) (c(t := Suc (c t)))"
    using Cons.prems by (intro freq_step_counts) simp_all
  moreover have "\<forall>t\<in>set ts. \<not> inherited t" using Cons.prems by simp
  ultimately have "counts (fold freq_step ts (freq_step t f)) (\<lambda>k. (c(t := Suc (c t))) k + count_list ts k)"
    by (rule Cons.IH [rotated])
  moreover have "(\<lambda>k. (c(t := Suc (c t))) k + count_list ts k) = (\<lambda>k. c k + count_list (t # ts) k)"
    by (auto simp: fun_eq_iff)
  ultimately show ?case by simp
qed

lemma freq_counts: "\<forall>t\<in>set ts. \<not> inherited t \<Longrightarrow> counts (freq ts) (count_list ts)"
  using fold_freq_step_counts [of ts "[]" "\<lambda>k. 0"] by (simp add: freq_def counts_empty)

lemma counts_keys: "counts f c \<Longrightarrow> set (object_keys f) = {k. c k \<noteq> 0}"
proof -
  assume a: "counts f c"
  show ?thesis
  proof (rule set_eqI)
    fix k
    have "k \<in> set (object_keys f) \<longleftrightarrow> map_of f k \<noteq> None"
      by (simp add: object_keys_def map_of_eq_None_iff)
    also have "\<dots> \<longleftrightarrow> c k \<noteq> 0"
      using a by (simp add: counts_def)
    finally show "k \<in> set (object_keys f) \<longleftrightarrow> k \<in> {k. c k \<noteq> 0}" by simp
  qed
qed

lemma freq_keys: "\<forall>t\<in>set ts. \<not> inherited t \<Longrightarrow> set (object_keys (freq ts)) = set ts"
  using counts_keys [OF freq_counts, of ts] by (auto simp: count_list_0_iff)

lemma counts_get:
  "counts f c \<Longrightarrow> \<not> inherited t \<Longrightarrow>
   js_or (js_get f t) (Numeric (Num 0)) = Numeric (Num (real (c t)))"
  by (cases "c t = 0") (simp_all add: counts_def js_get_def js_or_def inherited_def)

lemma cosine_fold_counts:
  "counts A ca \<Longrightarrow> counts B cb \<Longrightarrow> \<forall>t\<in>set ts. \<not> inherited t \<Longrightarrow>
   fold (cosine_step A B) ts (Num d, Num p, Num q) =
     (Num (d + (\<Sum>t\<leftarrow>ts. real (ca t) * real (cb t))),
      Num (p + (\<Sum>t\<leftarrow>ts. real (ca t) * real (ca t))),
      Num (q + (\<Sum>t\<leftarrow>ts. real (cb t) * real (cb t))))"
proof (induction ts arbitrary: d p q)
  case Nil
  then show ?case by simp
next
  case (Cons t ts)
  have "cosine_step A B t (Num d, Num p, Num q) =
      (Num (d + real (ca t) * real (cb t)), Num (p + real (ca t) * real (ca t)),
       Num (q + real (cb t) * real (cb t)))"
    using Cons.prems by (simp add: cosine_step_def counts_get js_mul_def)
  then show ?case using Cons by (simp add: add.assoc)
qed

text \<open>
  For token sequences without inherited names, \<open>cosineSim\<close> is the dot product of the
  term-frequency vectors over the product of their norms, with divisor 1 when a norm is 0.
\<close>

lemma cosineSim_plain:
  assumes "\<forall>t\<in>set a. \<not> inherited t" and "\<forall>t\<in>set b. \<not> inherited t"
  shows "cosineSim a b =
     (if sqrt (dotp a a) * sqrt (dotp b b) = 0 then Num (dotp a b)
      else Num (dotp a b / (sqrt (dotp a a) * sqrt (dotp b b))))"
proof -
  let ?terms = "new_Set (object_keys (freq a) @ object_keys (freq b))"
  have st: "set ?terms = set a \<union> set b"
    using assms by (simp add: set_new_Set freq_keys)
  have dt: "distinct ?terms" by (rule distinct_new_Set)
  have pl: "\<forall>t\<in>set ?terms. \<not> inherited t" using st assms by auto
  have sums: "\<And>g. (\<Sum>t\<leftarrow>?terms. g t) = (\<Sum>t\<in>set a \<union> set b. g t)"
    using dt st by (simp add: sum_list_distinct_conv_sum_set)
  have aa: "dotp a a = (\<Sum>t\<in>set a \<union> set b. real (count_list a t) * real (count_list a t))"
    unfolding dotp_def by (rule sum.mono_neutral_left) (auto simp: count_list_0_iff)
  have bb: "dotp b b = (\<Sum>t\<in>set a \<union> set b. real (count_list b t) * real (count_list b t))"
    unfolding dotp_def by (rule sum.mono_neutral_left) (auto simp: count_list_0_iff)
  have fold: "fold (cosine_step (freq a) (freq b)) ?terms (Num 0, Num 0, Num 0) =
      (Num (dotp a b), Num (dotp a a), Num (dotp b b))"
    using cosine_fold_counts [OF freq_counts [OF assms(1)] freq_counts [OF assms(2)] pl, of 0 0 0]
    by (simp add: sums aa bb) (simp add: dotp_def)
  have nn: "0 \<le> dotp a a" "0 \<le> dotp b b"
    by (simp_all add: dotp_def sum_nonneg)
  show ?thesis
    using nn by (simp add: cosineSim_def Let_def fold num_or_def)
qed

lemma dotp_self_pos: "a \<noteq> [] \<Longrightarrow> 0 < dotp a a"
proof -
  assume "a \<noteq> []"
  then obtain t where t: "t \<in> set a" by (cases a) auto
  then have "0 < count_list a t" by (simp add: count_list_0_iff zero_less_iff_neq_zero)
  then have "0 < real (count_list a t) * real (count_list a t)" by simp
  moreover have "real (count_list a t) * real (count_list a t) \<le> dotp a a"
    unfolding dotp_def using t
    by (intro member_le_sum) auto
  ultimately show ?thesis by linarith
qed

lemma cosineSim_self:
  assumes "a \<noteq> []" and "\<forall>t\<in>set a. \<not> inherited t"
  shows "cosineSim a a = Num 1"
proof -
  have "0 < dotp a a" using assms(1) by (rule dotp_self_pos)
  then show ?thesis
    by (simp add: cosineSim_plain [OF assms(2) assms(2)])
qed

lemma cosineSim_empty_left:
  assumes "\<forall>t\<in>set b. \<not> inherited t"
  shows "cosineSim [] b = Num 0"
  using cosineSim_plain [of "[]" b] assms by (simp add: dotp_def)

lemma cosineSim_empty_right:
  assumes "\<forall>t\<in>set a. \<not> inherited t"
  shows "cosineSim a [] = Num 0"
  using cosineSim_plain [of a "[]"] assms by (simp add: dotp_def)

lemma cauchy_schwarz_sum:
  fixes x y :: "'a \<Rightarrow> real"
  shows "(\<Sum>i\<in>S. x i * y i)\<^sup>2 \<le> (\<Sum>i\<in>S. x i * x i) * (\<Sum>i\<in>S. y i * y i)"
proof -
  have e: "\<And>i j. (x i * y j - x j * y i)\<^sup>2 =
      (x i * x i) * (y j * y j) - 2 * ((x i * y i) * (x j * y j)) + (x j * x j) * (y i * y i)"
    by (simp add: power2_eq_square algebra_simps)
  have "0 \<le> (\<Sum>i\<in>S. \<Sum>j\<in>S. (x i * y j - x j * y i)\<^sup>2)"
    by (intro sum_nonneg) simp
  also have "\<dots> = (\<Sum>i\<in>S. \<Sum>j\<in>S. (x i * x i) * (y j * y j))
      - 2 * (\<Sum>i\<in>S. \<Sum>j\<in>S. (x i * y i) * (x j * y j))
      + (\<Sum>i\<in>S. \<Sum>j\<in>S. (x j * x j) * (y i * y i))"
    unfolding e by (simp add: sum.distrib sum_subtractf sum_distrib_left)
  also have "(\<Sum>i\<in>S. \<Sum>j\<in>S. (x i * x i) * (y j * y j)) = (\<Sum>i\<in>S. x i * x i) * (\<Sum>i\<in>S. y i * y i)"
    by (simp add: sum_product)
  also have "(\<Sum>i\<in>S. \<Sum>j\<in>S. (x j * x j) * (y i * y i)) = (\<Sum>i\<in>S. x i * x i) * (\<Sum>i\<in>S. y i * y i)"
    by (subst sum.swap) (simp add: sum_product)
  also have "(\<Sum>i\<in>S. \<Sum>j\<in>S. (x i * y i) * (x j * y j)) = (\<Sum>i\<in>S. x i * y i)\<^sup>2"
    by (simp add: sum_product power2_eq_square)
  finally show ?thesis by simp
qed

section \<open>Jaccard similarity\<close>

lemma jaccard_closed:
  "jaccard a b =
     Num (real (card (set a \<inter> set b)) /
          (if set a \<union> set b = {} then 1 else real (card (set a \<union> set b))))"
proof -
  have "set (filter (\<lambda>x. has b x) a) = set a \<inter> set b"
    by (auto simp: has_def)
  then have i: "length (new_Set (filter (\<lambda>x. has b x) a)) = card (set a \<inter> set b)"
    by (simp add: length_new_Set)
  have u: "length (new_Set (a @ b)) = card (set a \<union> set b)"
    by (simp add: length_new_Set)
  have j: "jaccard a b = num_div (Num (real (card (set a \<inter> set b))))
      (num_or (Num (real (card (set a \<union> set b)))) (Num 1))"
    by (simp only: jaccard_def Let_def size_of_def i u)
  show ?thesis
  proof (cases "set a \<union> set b = {}")
    case True
    then have "card (set a \<union> set b) = 0" by simp
    with True show ?thesis unfolding j by (simp add: num_or_def)
  next
    case False
    then have "card (set a \<union> set b) \<noteq> 0" by (simp add: card_eq_0_iff)
    with False show ?thesis unfolding j by (auto simp: num_or_def)
  qed
qed

lemma jaccard_range: "\<exists>r. jaccard a b = Num r \<and> 0 \<le> r \<and> r \<le> 1"
proof (cases "set a \<union> set b = {}")
  case True
  then show ?thesis by (simp add: jaccard_closed)
next
  case False
  then have pos: "0 < card (set a \<union> set b)" by (simp add: card_gt_0_iff)
  have "card (set a \<inter> set b) \<le> card (set a \<union> set b)"
    by (intro card_mono) auto
  then have "real (card (set a \<inter> set b)) \<le> real (card (set a \<union> set b))" by simp
  with pos False show ?thesis
    unfolding jaccard_closed by (simp add: divide_le_eq_1)
qed

lemma jaccard_self: "s \<noteq> [] \<Longrightarrow> jaccard s s = Num 1"
  by (simp add: jaccard_closed card_gt_0_iff)

lemma jaccard_empty: "jaccard [] [] = Num 0"
  by (simp add: jaccard_closed)

section \<open>Tokens named like a method of \<open>Object.prototype\<close>\<close>

lemma num_add_NaN_right: "num_add x NaN = NaN"
  by (cases x) simp_all

lemma num_mul_NaN_right: "num_mul x NaN = NaN"
  by (cases x) simp_all

lemma num_div_NaN_left: "num_div NaN y = NaN"
  by simp

lemma proto_not_method: "''__proto__'' \<notin> set object_prototype_methods"
  by (simp add: object_prototype_methods_def)

lemma freq_step_method:
  assumes "k \<in> set object_prototype_methods" and "map_of f k = None \<or> map_of f k = Some Text"
  shows "map_of (freq_step t f) k = (if t = k then Some Text else map_of f k)"
proof (cases "t = k")
  case True
  have kp: "k \<noteq> ''__proto__''" using assms(1) proto_not_method by auto
  have "plus_one (js_or (js_get f k) (Numeric (Num 0))) = Text"
    using assms kp by (auto simp: js_get_def js_or_def)
  then show ?thesis using True kp by (simp add: freq_step_def js_set_def map_of_put)
next
  case False
  then show ?thesis by (simp add: freq_step_def js_set_def map_of_put)
qed

lemma fold_freq_step_method:
  "k \<in> set object_prototype_methods \<Longrightarrow> map_of f k = None \<or> map_of f k = Some Text \<Longrightarrow>
   map_of (fold freq_step ts f) k = (if k \<in> set ts then Some Text else map_of f k)"
proof (induction ts arbitrary: f)
  case Nil
  then show ?case by simp
next
  case (Cons t ts)
  have s: "map_of (freq_step t f) k = (if t = k then Some Text else map_of f k)"
    using Cons.prems by (rule freq_step_method)
  then have "map_of (freq_step t f) k = None \<or> map_of (freq_step t f) k = Some Text"
    using Cons.prems(2) by auto
  from Cons.IH [OF Cons.prems(1) this] s show ?case by auto
qed

lemma freq_method:
  "k \<in> set object_prototype_methods \<Longrightarrow>
   map_of (freq ts) k = (if k \<in> set ts then Some Text else None)"
  using fold_freq_step_method [of k "[]" ts] by (simp add: freq_def)

lemma freq_method_get:
  assumes "k \<in> set object_prototype_methods"
  shows "to_number (js_or (js_get (freq ts) k) (Numeric (Num 0))) = NaN"
proof -
  have "k \<noteq> ''__proto__''" using assms proto_not_method by auto
  then show ?thesis
    using assms by (simp add: js_get_def js_or_def freq_method)
qed

lemma freq_method_key:
  assumes "k \<in> set object_prototype_methods" and "k \<in> set ts"
  shows "k \<in> set (object_keys (freq ts))"
proof -
  have "map_of (freq ts) k \<noteq> None" using assms by (simp add: freq_method)
  then show ?thesis by (simp add: object_keys_def map_of_eq_None_iff)
qed

lemma cosine_fold_NaN: "fst (fold (cosine_step A B) ts (NaN, p, q)) = NaN"
  by (induction ts arbitrary: p q) (simp_all add: cosine_step_def Let_def)

lemma cosine_fold_method:
  assumes "k \<in> set object_prototype_methods" and "k \<in> set ts"
  shows "fst (fold (cosine_step (freq a) (freq b)) ts acc) = NaN"
  using assms(2)
proof (induction ts arbitrary: acc)
  case Nil
  then show ?case by simp
next
  case (Cons t ts)
  obtain d p q where acc: "acc = (d, p, q)" by (cases acc) 
  show ?case
  proof (cases "t = k")
    case True
    have "cosine_step (freq a) (freq b) k (d, p, q) = (NaN, NaN, NaN)"
      using freq_method_get [OF assms(1), of a] freq_method_get [OF assms(1), of b]
      by (simp add: cosine_step_def Let_def js_mul_def num_add_NaN_right num_mul_NaN_right)
    then show ?thesis using True acc by (simp add: cosine_fold_NaN)
  next
    case False
    with Cons.prems have "k \<in> set ts" by simp
    then show ?thesis using Cons.IH by simp
  qed
qed

lemma cosineSim_method_name:
  assumes "k \<in> set object_prototype_methods" and "k \<in> set a \<union> set b"
  shows "cosineSim a b = NaN"
proof -
  let ?terms = "new_Set (object_keys (freq a) @ object_keys (freq b))"
  have "k \<in> set ?terms"
    using assms freq_method_key [OF assms(1)] by (auto simp: set_new_Set)
  then have "fst (fold (cosine_step (freq a) (freq b)) ?terms (Num 0, Num 0, Num 0)) = NaN"
    using assms(1) by (intro cosine_fold_method) 
  then show ?thesis
    by (auto simp: cosineSim_def Let_def split: prod.splits)
qed


section \<open>What the tokenizer returns\<close>

text \<open>
  C9. \<open>tokenize\<close> is a function of its argument alone (it reads the constant stop-word
  list and no other state), it returns a token sequence for every string, no token is
  empty or a stop word, and every character of every token is a lower-case ASCII letter
  or a digit: none is a markdown marker, white space or another character outside
  \<open>\w\<close>, so none is punctuation.
\<close>

theorem tokenize_output:
  "tokenize x = tokenize x
   \<and> (\<exists>tokens. tokenize x = tokens)
   \<and> (\<forall>t\<in>set (tokenize x). t \<noteq> [] \<and> t \<notin> set STOP
         \<and> (\<forall>c\<in>set t. (is_lower c \<or> is_digit c) \<and> \<not> is_marker c \<and> \<not> is_space c))"
proof (intro conjI ballI)
  fix t assume t: "t \<in> set (tokenize x)"
  then show "t \<noteq> []" by (simp add: tokenize_def)
  from t show "t \<notin> set STOP" by (simp add: tokenize_def has_def)
  fix c assume "c \<in> set t"
  with t show "is_lower c \<or> is_digit c" "\<not> is_marker c" "\<not> is_space c"
    using tokenize_chars by blast+
qed simp_all

theorem tokenize_output_witness:
  "''jumps'' \<in> set (tokenize ''The Quick_brown fox: it JUMPS!'')
   \<and> ''jumps'' \<noteq> [] \<and> ''jumps'' \<notin> set STOP
   \<and> is_lower (CHR ''j'') \<and> \<not> is_marker (CHR ''j'') \<and> \<not> is_space (CHR ''j'')"
proof -
  have m: "''jumps'' \<in> set (tokenize ''The Quick_brown fox: it JUMPS!'')" by code_simp
  have c: "CHR ''j'' \<in> set ''jumps''" by simp
  have d: "\<not> is_digit (CHR ''j'')" by (simp add: is_digit_def code_def)
  from tokenize_output [of "''The Quick_brown fox: it JUMPS!''"] m c d show ?thesis
    by blast
qed

lemma tokenize_example:
  "tokenize ''The Quick_brown fox: it JUMPS!'' = [''quick'', ''brown'', ''fox'', ''jumps'']"
  by code_simp

section \<open>The verdict of the novelty guard\<close>

text \<open>
  The guard as a whole: it rejects, with its one hint, exactly when some recent post is
  too close to the candidate.
\<close>

lemma novelty_loop_char:
  "novelty_loop (tokenize (stripHtml c)) (new_Set (ngrams (tokenize (stripHtml c)) 3)) refs =
     (if \<exists>r\<in>set refs. too_similar c r
      then \<lparr>ok = False, hint = Some ''Change structure and examples; focus on a different facet (policy, ROI, or onboarding). Avoid repeating phrases.''\<rparr>
      else \<lparr>ok = True, hint = None\<rparr>)"
  by (induction refs) (simp_all add: too_similar_def Let_def)

lemma ensureNovelty_char:
  "ensureNovelty c refs =
     (if \<exists>r\<in>set refs. too_similar c r
      then \<lparr>ok = False, hint = Some ''Change structure and examples; focus on a different facet (policy, ROI, or onboarding). Avoid repeating phrases.''\<rparr>
      else \<lparr>ok = True, hint = None\<rparr>)"
  by (simp add: ensureNovelty_def Let_def novelty_loop_char)

lemma too_similar_same_tokens:
  assumes "tokenize (stripHtml c) = tokenize (stripHtml r)"
    and "tokenize (stripHtml c) \<noteq> []"
    and "\<forall>t\<in>set (tokenize (stripHtml c)). \<not> inherited t"
  shows "too_similar c r"
proof -
  have "cosineSim (tokenize (stripHtml c)) (tokenize (stripHtml r)) = Num 1"
    using cosineSim_self [OF assms(2) assms(3)] assms(1) by simp
  then show ?thesis by (simp add: too_similar_def)
qed



text \<open>
  The sample texts used below: five spellings of one sentence tokenize alike, and a
  second sentence shares no token with them.
\<close>

lemma sample_tokens:
  "tokenize (stripHtml ''<p>Agents need guardrails</p>'') = [''agents'', ''need'', ''guardrails'']"
  "tokenize (stripHtml ''Agents need guardrails'') = [''agents'', ''need'', ''guardrails'']"
  "tokenize (stripHtml ''Agents need guardrails!'') = [''agents'', ''need'', ''guardrails'']"
  "tokenize (stripHtml ''AGENTS need guardrails.'') = [''agents'', ''need'', ''guardrails'']"
  "tokenize (stripHtml ''Agents *need* guardrails'') = [''agents'', ''need'', ''guardrails'']"
  "tokenize (stripHtml ''agents, need, guardrails'') = [''agents'', ''need'', ''guardrails'']"
  "tokenize (stripHtml ''<p>Design for trust</p>'') = [''design'', ''trust'']"
  by code_simp+

lemma sample_not_inherited:
  "\<forall>t\<in>set [''agents'', ''need'', ''guardrails'']. \<not> inherited t"
  "\<forall>t\<in>set [''design'', ''trust'']. \<not> inherited t"
  by (simp_all add: inherited_def object_prototype_methods_def)

lemma sample_too_similar:
  "too_similar ''Agents need guardrails'' ''<p>Agents need guardrails</p>''"
  "too_similar ''Agents need guardrails!'' ''<p>Agents need guardrails</p>''"
  "too_similar ''AGENTS need guardrails.'' ''<p>Agents need guardrails</p>''"
  "too_similar ''Agents *need* guardrails'' ''<p>Agents need guardrails</p>''"
  "too_similar ''agents, need, guardrails'' ''<p>Agents need guardrails</p>''"
  by (rule too_similar_same_tokens; simp add: sample_tokens sample_not_inherited)+






text \<open>
  C6. Permuting the list of references changes neither the outcome nor the hint: the
  whole verdict stays the same.
\<close>

theorem ensureNovelty_permutation:
  assumes "mset refs = mset refs'"
  shows "ensureNovelty c refs = ensureNovelty c refs'"
proof -
  from assms have "set refs = set refs'" by (rule mset_eq_setD)
  then show ?thesis by (simp add: ensureNovelty_char)
qed

theorem ensureNovelty_permutation_witness:
  "mset [''<p>Design for trust</p>'', ''<p>Agents need guardrails</p>''] =
     mset [''<p>Agents need guardrails</p>'', ''<p>Design for trust</p>'']
   \<and> ensureNovelty ''Agents need guardrails!''
         [''<p>Design for trust</p>'', ''<p>Agents need guardrails</p>''] =
       ensureNovelty ''Agents need guardrails!''
         [''<p>Agents need guardrails</p>'', ''<p>Design for trust</p>'']"
proof -
  have m: "mset [''<p>Design for trust</p>'', ''<p>Agents need guardrails</p>''] =
     mset [''<p>Agents need guardrails</p>'', ''<p>Design for trust</p>'']"
    by simp
  from m ensureNovelty_permutation [OF m, of "''Agents need guardrails!''"] show ?thesis
    by blast
qed


section \<open>The retry loop\<close>

lemma retry_loop_exhausts:
  "\<not> ok isUnique \<Longrightarrow> attempts \<le> 5 \<Longrightarrow>
   (\<forall>k. attempts \<le> k \<and> k < 5 \<longrightarrow>
      (\<exists>s. chat k = Inr s \<and> \<not> ok (ensureNovelty s (map html (slice posts 0 15))))) \<Longrightarrow>
   retry_loop e chat posts generated ttl tags isUnique attempts =
     Inr \<lparr>written = generated, data_file = writePost e posts generated ttl tags, calls = 5\<rparr>"
proof (induction e chat posts generated ttl tags isUnique attempts rule: retry_loop.induct)
  case (1 e chat posts generated ttl tags isUnique attempts)
  show ?case
  proof (cases "attempts < 5")
    case True
    then obtain s where s: "chat attempts = Inr s"
        "\<not> ok (ensureNovelty s (map html (slice posts 0 15)))"
      using "1.prems"(3) by auto
    have "retry_loop e chat posts generated ttl tags isUnique attempts =
        retry_loop e chat posts generated ttl tags isUnique (attempts + 1)"
      using True s "1.prems"(1) by (subst retry_loop.simps) simp
    also have "\<dots> = Inr \<lparr>written = generated, data_file = writePost e posts generated ttl tags, calls = 5\<rparr>"
      using "1.IH" [of s] True s "1.prems" by simp
    finally show ?thesis .
  next
    case False
    with "1.prems"(2) have "attempts = 5" by simp
    then show ?thesis by (subst retry_loop.simps) simp
  qed
qed

lemma main_first_rejected:
  assumes "chat 0 = Inr g"
  shows "main e chat posts =
     retry_loop e chat posts g (deriveTitle e g) (deriveHashtags e g)
       (ensureNovelty g (map html (slice posts 0 15))) 1"
  using assms by (simp add: main_def Let_def)

text \<open>
  Every run that writes a post makes between one and five requests, and the body it
  writes is the first answer or an answer that the guard accepted.
\<close>

lemma retry_loop_bounds:
  "retry_loop e chat posts generated ttl tags isUnique attempts = Inr r \<Longrightarrow> attempts \<le> 5 \<Longrightarrow>
   attempts \<le> calls r \<and> calls r \<le> 5
   \<and> (written r = generated \<or> ok (ensureNovelty (written r) (map html (slice posts 0 15))))"
proof (induction e chat posts generated ttl tags isUnique attempts rule: retry_loop.induct)
  case (1 e chat posts generated ttl tags isUnique attempts)
  show ?case
  proof (cases "\<not> ok isUnique \<and> attempts < 5")
    case False
    then have "retry_loop e chat posts generated ttl tags isUnique attempts =
        Inr \<lparr>written = generated, data_file = writePost e posts generated ttl tags,
             calls = attempts\<rparr>"
      by (subst retry_loop.simps) (simp only: False if_False)
    with "1.prems" show ?thesis by auto
  next
    case True
    show ?thesis
    proof (cases "chat attempts")
      case (Inl err)
      with True have "retry_loop e chat posts generated ttl tags isUnique attempts = Inl err"
        by (subst retry_loop.simps) simp
      with "1.prems"(1) show ?thesis by simp
    next
      case (Inr alt)
      show ?thesis
      proof (cases "ok (ensureNovelty alt (map html (slice posts 0 15)))")
        case accepted: True
        with True Inr have "retry_loop e chat posts generated ttl tags isUnique attempts =
            Inr \<lparr>written = alt,
                 data_file = writePost e posts alt (titleFrom e alt) (deriveHashtags e alt),
                 calls = attempts + 1\<rparr>"
          by (subst retry_loop.simps) simp
        with "1.prems"(1) True accepted show ?thesis by auto
      next
        case rejected: False
        with True Inr have "retry_loop e chat posts generated ttl tags isUnique attempts =
            retry_loop e chat posts generated ttl tags isUnique (attempts + 1)"
          by (subst retry_loop.simps) simp
        with "1.prems"(1) have "retry_loop e chat posts generated ttl tags isUnique (attempts + 1) = Inr r"
          by simp
        from "1.IH" [OF True Inr rejected this] True show ?thesis by simp
      qed
    qed
  qed
qed

lemma main_bounds:
  assumes "main e chat posts = Inr r"
  shows "1 \<le> calls r \<and> calls r \<le> 5
    \<and> (chat 0 = Inr (written r) \<or> ok (ensureNovelty (written r) (map html (slice posts 0 15))))"
proof (cases "chat 0")
  case (Inl err)
  with assms show ?thesis by (simp add: main_def Let_def)
next
  case (Inr g)
  with assms have "retry_loop e chat posts g (deriveTitle e g) (deriveHashtags e g)
      (ensureNovelty g (map html (slice posts 0 15))) 1 = Inr r"
    by (simp add: main_def Let_def)
  from retry_loop_bounds [OF this] Inr show ?thesis by auto
qed

text \<open>
  C2, as the code has it. When the first five answers of the language model are all
  rejected by the guard, \<open>main\<close> makes exactly five requests and then writes a post
  unconditionally; the post it writes is the first answer, with the title and hashtags
  derived from the first answer, not the answer generated last.
\<close>

theorem main_exhausted_writes_first:
  assumes "\<forall>k<5. \<exists>s. chat k = Inr s \<and> \<not> ok (ensureNovelty s (map html (slice posts 0 15)))"
  shows "\<exists>generated. chat 0 = Inr generated
     \<and> main e chat posts =
         Inr \<lparr>written = generated,
              data_file = writePost e posts generated (deriveTitle e generated) (deriveHashtags e generated),
              calls = 5\<rparr>"
proof -
  have "(0::nat) < 5" by simp
  with assms obtain g where g: "chat 0 = Inr g"
      "\<not> ok (ensureNovelty g (map html (slice posts 0 15)))"
    by blast
  have "\<forall>k. 1 \<le> k \<and> k < 5 \<longrightarrow>
      (\<exists>s. chat k = Inr s \<and> \<not> ok (ensureNovelty s (map html (slice posts 0 15))))"
    using assms by simp
  then have "retry_loop e chat posts g (deriveTitle e g) (deriveHashtags e g)
       (ensureNovelty g (map html (slice posts 0 15))) 1 =
     Inr \<lparr>written = g, data_file = writePost e posts g (deriveTitle e g) (deriveHashtags e g), calls = 5\<rparr>"
    using g(2) by (intro retry_loop_exhausts) simp_all
  with g(1) show ?thesis by (simp add: main_first_rejected)
qed

lemma sample_refs: "map html (slice sample_posts 0 15) = [''<p>Agents need guardrails</p>'']"
  by (simp add: sample_posts_def slice_def)

lemma sample_chat:
  "stubborn_chat 0 = Inr ''Agents need guardrails''"
  "stubborn_chat 1 = Inr ''Agents need guardrails!''"
  "stubborn_chat 2 = Inr ''AGENTS need guardrails.''"
  "stubborn_chat 3 = Inr ''Agents *need* guardrails''"
  "stubborn_chat 4 = Inr ''agents, need, guardrails''"
  by (simp_all add: stubborn_chat_def)

lemma sample_rejected:
  "\<not> ok (ensureNovelty ''Agents need guardrails'' (map html (slice sample_posts 0 15)))"
  "\<not> ok (ensureNovelty ''Agents need guardrails!'' (map html (slice sample_posts 0 15)))"
  "\<not> ok (ensureNovelty ''AGENTS need guardrails.'' (map html (slice sample_posts 0 15)))"
  "\<not> ok (ensureNovelty ''Agents *need* guardrails'' (map html (slice sample_posts 0 15)))"
  "\<not> ok (ensureNovelty ''agents, need, guardrails'' (map html (slice sample_posts 0 15)))"
  using sample_too_similar by (simp_all add: sample_refs ensureNovelty_char)

lemma sample_all_rejected:
  "\<forall>k<5. \<exists>s. stubborn_chat k = Inr s
      \<and> \<not> ok (ensureNovelty s (map html (slice sample_posts 0 15)))"
proof (intro allI impI)
  fix k :: nat assume "k < 5"
  then consider "k = 0" | "k = 1" | "k = 2" | "k = 3" | "k = 4" by linarith
  then show "\<exists>s. stubborn_chat k = Inr s
      \<and> \<not> ok (ensureNovelty s (map html (slice sample_posts 0 15)))"
    using sample_chat sample_rejected by cases simp_all
qed

theorem main_exhausted_writes_first_witness:
  "stubborn_chat 0 = Inr ''Agents need guardrails''
   \<and> \<not> ok (ensureNovelty ''Agents need guardrails'' (map html (slice sample_posts 0 15)))
   \<and> stubborn_chat 4 = Inr ''agents, need, guardrails''
   \<and> \<not> ok (ensureNovelty ''agents, need, guardrails'' (map html (slice sample_posts 0 15)))
   \<and> main sample_env stubborn_chat sample_posts =
       Inr \<lparr>written = ''Agents need guardrails'',
            data_file = writePost sample_env sample_posts ''Agents need guardrails''
              (deriveTitle sample_env ''Agents need guardrails'')
              (deriveHashtags sample_env ''Agents need guardrails''),
            calls = 5\<rparr>"
  using main_exhausted_writes_first [OF sample_all_rejected, of sample_env]
    sample_chat sample_rejected
  by simp

text \<open>
  After five rejected answers that differ as strings, the body written is the first
  answer and not the fifth.
\<close>

theorem main_last_candidate_counterexample:
  "stubborn_chat 0 = Inr ''Agents need guardrails''
   \<and> \<not> ok (ensureNovelty ''Agents need guardrails'' (map html (slice sample_posts 0 15)))
   \<and> stubborn_chat 1 = Inr ''Agents need guardrails!''
   \<and> \<not> ok (ensureNovelty ''Agents need guardrails!'' (map html (slice sample_posts 0 15)))
   \<and> stubborn_chat 2 = Inr ''AGENTS need guardrails.''
   \<and> \<not> ok (ensureNovelty ''AGENTS need guardrails.'' (map html (slice sample_posts 0 15)))
   \<and> stubborn_chat 3 = Inr ''Agents *need* guardrails''
   \<and> \<not> ok (ensureNovelty ''Agents *need* guardrails'' (map html (slice sample_posts 0 15)))
   \<and> stubborn_chat 4 = Inr ''agents, need, guardrails''
   \<and> \<not> ok (ensureNovelty ''agents, need, guardrails'' (map html (slice sample_posts 0 15)))
   \<and> (case main sample_env stubborn_chat sample_posts of
         Inr r \<Rightarrow> written r = ''Agents need guardrails''
                  \<and> written r \<noteq> ''agents, need, guardrails''
                  \<and> calls r = 5
                  \<and> html (hd (data_file r)) = ''<p>Agents need guardrails</p>''
       | Inl err \<Rightarrow> False)"
proof -
  have "\<forall>k. 1 \<le> k \<and> k < 5 \<longrightarrow>
      (\<exists>s. stubborn_chat k = Inr s
         \<and> \<not> ok (ensureNovelty s (map html (slice sample_posts 0 15))))"
    using sample_all_rejected by simp
  then have "retry_loop sample_env stubborn_chat sample_posts ''Agents need guardrails''
      (deriveTitle sample_env ''Agents need guardrails'')
      (deriveHashtags sample_env ''Agents need guardrails'')
      (ensureNovelty ''Agents need guardrails'' (map html (slice sample_posts 0 15))) 1 =
     Inr \<lparr>written = ''Agents need guardrails'',
          data_file = writePost sample_env sample_posts ''Agents need guardrails''
            (deriveTitle sample_env ''Agents need guardrails'')
            (deriveHashtags sample_env ''Agents need guardrails''),
          calls = 5\<rparr>"
    using sample_rejected(1) by (intro retry_loop_exhausts) simp_all
  then have "main sample_env stubborn_chat sample_posts =
     Inr \<lparr>written = ''Agents need guardrails'',
          data_file = writePost sample_env sample_posts ''Agents need guardrails''
            (deriveTitle sample_env ''Agents need guardrails'')
            (deriveHashtags sample_env ''Agents need guardrails''),
          calls = 5\<rparr>"
    using main_first_rejected [of stubborn_chat "''Agents need guardrails''" sample_env sample_posts]
      sample_chat(1)
    by simp
  then show ?thesis
    using sample_chat sample_rejected
    by (simp add: writePost_def slice_def Let_def sample_env_def)
qed

section \<open>A candidate that repeats a reference verbatim\<close>

text \<open>The divisor of both similarity measures has the form \<open>d || 1\<close>, which is never 0.\<close>

lemma divisor_not_zero: "num_or x (Num 1) \<noteq> Num 0"
  by (cases x) (simp_all add: num_or_def)

lemma new_Set_Nil: "new_Set [] = []"
  by (simp add: new_Set_def)

lemma new_Set_eq_Nil: "new_Set xs = [] \<longleftrightarrow> xs = []"
  using set_new_Set [of xs] by (metis set_empty)

text \<open>
  C3, as the code has it. A candidate that has at least one token, none of them the word
  \<open>constructor\<close>, and that equals one of the references verbatim is rejected with the
  fixed hint: its cosine similarity with that reference is 1, above 0.78. The Jaccard
  similarity of the trigram sets is 1 when the candidate has at least three tokens, and 0
  when it has fewer, since there is no trigram then.
\<close>

theorem ensureNovelty_verbatim:
  assumes "candidate \<in> set references"
    and "tokenize (stripHtml candidate) \<noteq> []"
    and "''constructor'' \<notin> set (tokenize (stripHtml candidate))"
  shows "ensureNovelty candidate references =
      \<lparr>ok = False, hint = Some ''Change structure and examples; focus on a different facet (policy, ROI, or onboarding). Avoid repeating phrases.''\<rparr>
    \<and> cosineSim (tokenize (stripHtml candidate)) (tokenize (stripHtml candidate)) = Num 1
    \<and> (3 \<le> length (tokenize (stripHtml candidate)) \<longrightarrow>
         jaccard (new_Set (ngrams (tokenize (stripHtml candidate)) 3))
                 (new_Set (ngrams (tokenize (stripHtml candidate)) 3)) = Num 1)
    \<and> (length (tokenize (stripHtml candidate)) < 3 \<longrightarrow>
         jaccard (new_Set (ngrams (tokenize (stripHtml candidate)) 3))
                 (new_Set (ngrams (tokenize (stripHtml candidate)) 3)) = Num 0)"
proof (intro conjI impI)
  let ?T = "tokenize (stripHtml candidate)"
  have plain: "\<forall>t\<in>set ?T. \<not> inherited t"
    using tokenize_inherited [of _ "stripHtml candidate"] assms(3) by blast
  show "cosineSim ?T ?T = Num 1"
    using assms(2) plain by (rule cosineSim_self)
  have "too_similar candidate candidate"
    using assms(2) plain by (intro too_similar_same_tokens) simp_all
  with assms(1) show "ensureNovelty candidate references =
      \<lparr>ok = False, hint = Some ''Change structure and examples; focus on a different facet (policy, ROI, or onboarding). Avoid repeating phrases.''\<rparr>"
    by (auto simp: ensureNovelty_char)
next
  let ?T = "tokenize (stripHtml candidate)"
  assume "3 \<le> length ?T"
  then have "ngrams ?T 3 \<noteq> []" by (simp add: ngrams_closed)
  then have "new_Set (ngrams ?T 3) \<noteq> []" by (simp add: new_Set_eq_Nil)
  then show "jaccard (new_Set (ngrams ?T 3)) (new_Set (ngrams ?T 3)) = Num 1"
    by (rule jaccard_self)
next
  let ?T = "tokenize (stripHtml candidate)"
  assume "length ?T < 3"
  then have "ngrams ?T 3 = []" by (simp add: ngrams_closed)
  then show "jaccard (new_Set (ngrams ?T 3)) (new_Set (ngrams ?T 3)) = Num 0"
    by (simp add: new_Set_Nil jaccard_empty)
qed

theorem ensureNovelty_verbatim_witness:
  "''Agents need guardrails'' \<in> set [''Design for trust'', ''Agents need guardrails'']
   \<and> tokenize (stripHtml ''Agents need guardrails'') = [''agents'', ''need'', ''guardrails'']
   \<and> ensureNovelty ''Agents need guardrails'' [''Design for trust'', ''Agents need guardrails''] =
       \<lparr>ok = False, hint = Some ''Change structure and examples; focus on a different facet (policy, ROI, or onboarding). Avoid repeating phrases.''\<rparr>
   \<and> cosineSim [''agents'', ''need'', ''guardrails''] [''agents'', ''need'', ''guardrails''] = Num 1
   \<and> jaccard (new_Set (ngrams [''agents'', ''need'', ''guardrails''] 3))
         (new_Set (ngrams [''agents'', ''need'', ''guardrails''] 3)) = Num 1"
proof -
  have m: "''Agents need guardrails'' \<in> set [''Design for trust'', ''Agents need guardrails'']"
    by simp
  have t: "tokenize (stripHtml ''Agents need guardrails'') \<noteq> []"
    by (simp add: sample_tokens)
  have c: "''constructor'' \<notin> set (tokenize (stripHtml ''Agents need guardrails''))"
    by (simp add: sample_tokens)
  from ensureNovelty_verbatim [OF m t c] m show ?thesis
    by (simp add: sample_tokens)
qed

text \<open>
  A candidate without tokens (the empty text, which \<open>chat\<close> returns when the answer has
  no content, or a text of stop words only) is accepted although a reference equals it
  verbatim: both similarities are 0 there.
\<close>

lemma empty_tokens:
  "tokenize (stripHtml []) = []"
  "tokenize (stripHtml ''This is it.'') = []"
  by code_simp+

theorem ensureNovelty_verbatim_counterexample:
  "[] \<in> set [[]]
   \<and> ensureNovelty [] [[]] = \<lparr>ok = True, hint = None\<rparr>
   \<and> ''This is it.'' \<in> set [''<p>Design for trust</p>'', ''This is it.'']
   \<and> ensureNovelty ''This is it.'' [''<p>Design for trust</p>'', ''This is it.''] =
       \<lparr>ok = True, hint = None\<rparr>
   \<and> cosineSim (tokenize (stripHtml ''This is it.'')) (tokenize (stripHtml ''This is it.'')) = Num 0
   \<and> jaccard (new_Set (ngrams (tokenize (stripHtml ''This is it.'')) 3))
         (new_Set (ngrams (tokenize (stripHtml ''This is it.'')) 3)) = Num 0"
proof -
  have cos: "\<And>b. \<forall>t\<in>set b. \<not> inherited t \<Longrightarrow> cosineSim [] b = Num 0"
    by (rule cosineSim_empty_left)
  have ng: "ngrams [] 3 = []" by code_simp
  have jac: "\<And>b. jaccard [] b = Num 0"
    by (simp add: jaccard_closed)
  have "\<not> too_similar [] []"
    by (simp add: too_similar_def empty_tokens cos ng new_Set_Nil jac)
  moreover have "\<not> too_similar ''This is it.'' ''This is it.''"
    by (simp add: too_similar_def empty_tokens cos ng new_Set_Nil jac)
  moreover have "\<not> too_similar ''This is it.'' ''<p>Design for trust</p>''"
    by (simp add: too_similar_def empty_tokens sample_tokens cos sample_not_inherited ng new_Set_Nil jac)
  ultimately show ?thesis
    by (simp add: ensureNovelty_char empty_tokens cos ng new_Set_Nil jac)
qed

section \<open>The range of the similarity measures\<close>

text \<open>
  Where no token has an inherited name, the cosine similarity is a real number between
  0 and 1; this is the Cauchy-Schwarz inequality for the two term-frequency vectors.
\<close>

lemma dotp_self_union:
  "dotp a a = (\<Sum>t\<in>set a \<union> set b. real (count_list a t) * real (count_list a t))"
  unfolding dotp_def by (rule sum.mono_neutral_left) (auto simp: count_list_0_iff)

lemma dotp_self_union':
  "dotp b b = (\<Sum>t\<in>set a \<union> set b. real (count_list b t) * real (count_list b t))"
  unfolding dotp_def by (rule sum.mono_neutral_left) (auto simp: count_list_0_iff)

lemma dotp_nonneg: "0 \<le> dotp a b"
  by (simp add: dotp_def sum_nonneg)

lemma dotp_le_norms: "dotp a b \<le> sqrt (dotp a a) * sqrt (dotp b b)"
proof -
  have "(dotp a b)\<^sup>2 \<le> dotp a a * dotp b b"
    unfolding dotp_self_union [of a b] dotp_self_union' [of b a]
    unfolding dotp_def by (rule cauchy_schwarz_sum)
  then have "dotp a b \<le> sqrt (dotp a a * dotp b b)"
    by (rule real_le_rsqrt)
  then show ?thesis by (simp add: real_sqrt_mult)
qed

lemma cosineSim_range:
  assumes "\<forall>t\<in>set a. \<not> inherited t" and "\<forall>t\<in>set b. \<not> inherited t"
  shows "\<exists>r. cosineSim a b = Num r \<and> 0 \<le> r \<and> r \<le> 1"
proof (cases "sqrt (dotp a a) * sqrt (dotp b b) = 0")
  case True
  with dotp_le_norms [of a b] dotp_nonneg [of a b] have "dotp a b = 0" by simp
  with True show ?thesis by (simp add: cosineSim_plain [OF assms])
next
  case False
  have "0 \<le> sqrt (dotp a a) * sqrt (dotp b b)"
    by (simp add: dotp_nonneg)
  with False have pos: "0 < sqrt (dotp a a) * sqrt (dotp b b)"
    by (rule order.not_eq_order_implies_strict [OF not_sym])
  have "dotp a b / (sqrt (dotp a a) * sqrt (dotp b b)) \<le> 1"
    using pos dotp_le_norms [of a b] by (simp add: divide_le_eq_1)
  moreover have "0 \<le> dotp a b / (sqrt (dotp a a) * sqrt (dotp b b))"
    using pos dotp_nonneg [of a b] by simp
  ultimately show ?thesis using False by (simp add: cosineSim_plain [OF assms])
qed

text \<open>Tokens \<open>__proto__\<close> are dropped by \<open>freq\<close>: the assignment to that name does nothing.\<close>

lemma freq_step_proto: "freq_step ''__proto__'' f = f"
  by (simp add: freq_step_def js_set_def)

lemma fold_freq_step_filter:
  "fold freq_step (filter (\<lambda>t. t \<noteq> ''__proto__'') ts) f = fold freq_step ts f"
  by (induction ts arbitrary: f) (simp_all add: freq_step_proto)

lemma cosineSim_ignores_proto:
  "cosineSim a b =
     cosineSim (filter (\<lambda>t. t \<noteq> ''__proto__'') a) (filter (\<lambda>t. t \<noteq> ''__proto__'') b)"
  by (simp add: cosineSim_def freq_def fold_freq_step_filter)

text \<open>
  All inputs of \<open>cosineSim\<close>: the result is \<open>NaN\<close> as soon as one token is named like a
  method of \<open>Object.prototype\<close>, and a real number between 0 and 1 otherwise.
\<close>

lemma cosineSim_cases:
  "(if \<exists>k\<in>set a \<union> set b. k \<in> set object_prototype_methods
    then cosineSim a b = NaN
    else \<exists>r. cosineSim a b = Num r \<and> 0 \<le> r \<and> r \<le> 1)"
proof (cases "\<exists>k\<in>set a \<union> set b. k \<in> set object_prototype_methods")
  case True
  then obtain k where "k \<in> set object_prototype_methods" "k \<in> set a \<union> set b" by blast
  then have "cosineSim a b = NaN" by (rule cosineSim_method_name)
  with True show ?thesis by simp
next
  case False
  let ?a = "filter (\<lambda>t. t \<noteq> ''__proto__'') a" and ?b = "filter (\<lambda>t. t \<noteq> ''__proto__'') b"
  from False have "\<forall>t\<in>set ?a. \<not> inherited t" "\<forall>t\<in>set ?b. \<not> inherited t"
    by (auto simp: inherited_def)
  then have "\<exists>r. cosineSim ?a ?b = Num r \<and> 0 \<le> r \<and> r \<le> 1"
    by (rule cosineSim_range)
  then have "\<exists>r. cosineSim a b = Num r \<and> 0 \<le> r \<and> r \<le> 1"
    using cosineSim_ignores_proto [of a b] by simp
  with False show ?thesis by simp
qed

section \<open>Tokens with inherited names: where the similarity is not a number\<close>

lemma constructor_tokens:
  "tokenize (stripHtml ''Constructor injection'') = [''constructor'', ''injection'']"
  "tokenize (stripHtml ''<p>Dependency injection</p>'') = [''dependency'', ''injection'']"
  "tokenize (stripHtml ''Constructor'') = [''constructor'']"
  "tokenize (stripHtml ''<p>Constructor</p>'') = [''constructor'']"
  by code_simp+

lemma constructor_is_method: "''constructor'' \<in> set object_prototype_methods"
  by (simp add: object_prototype_methods_def)

text \<open>
  C4 fails on the code: for a text that contains the word \<open>constructor\<close>, \<open>freq\<close> reads
  the inherited function \<open>Object.prototype.constructor\<close> where it expects a count, and
  \<open>cosineSim\<close> returns \<open>NaN\<close>, which is not a number in the interval from 0 to 1.
\<close>

theorem cosineSim_inherited_name_no_score:
  "cosineSim (tokenize (stripHtml ''Constructor injection''))
     (tokenize (stripHtml ''<p>Dependency injection</p>'')) = NaN"
  unfolding constructor_tokens
  by (rule cosineSim_method_name [OF constructor_is_method]) simp

text \<open>
  C5 fails on the code: the cosine similarity of the empty token sequence and a sequence
  that contains \<open>constructor\<close> is \<open>NaN\<close>, not 0. (No division by zero takes place:
  see \<open>divisor_not_zero\<close>, and \<open>jaccard_empty\<close> for the empty sets.)
\<close>

theorem cosineSim_empty_inherited_name:
  "cosineSim [] [''constructor''] = NaN"
  by (simp add: cosineSim_def freq_def freq_step_def js_get_def js_set_def js_or_def
      new_Set_def set_add_def object_keys_def cosine_step_def js_mul_def num_or_def
      object_prototype_methods_def)

text \<open>
  C7 fails on the code: the self-similarity of the non-empty token sequence
  \<open>[constructor]\<close> is \<open>NaN\<close>, not 1. (\<open>cosineSim_self\<close> shows the claim for the
  non-empty token sequences without inherited names, \<open>jaccard_self\<close> for all non-empty
  sets.)
\<close>

theorem cosineSim_self_inherited_name:
  "[''constructor''] \<noteq> [] \<and> cosineSim [''constructor''] [''constructor''] = NaN"
  by (simp add: cosineSim_def freq_def freq_step_def js_get_def js_set_def js_or_def
      new_Set_def set_add_def object_keys_def cosine_step_def js_mul_def num_or_def
      object_prototype_methods_def)

text \<open>
  In the guard, \<open>NaN > 0.78\<close> is false, so a one-word candidate \<open>Constructor\<close> is
  accepted against a reference that equals it verbatim.
\<close>

lemma verbatim_constructor_accepted:
  "ensureNovelty ''Constructor'' [''Constructor''] = \<lparr>ok = True, hint = None\<rparr>"
proof -
  have "cosineSim [''constructor''] [''constructor''] = NaN"
    by (rule cosineSim_method_name [OF constructor_is_method]) simp
  moreover have "ngrams [''constructor''] 3 = []" by code_simp
  ultimately have "\<not> too_similar ''Constructor'' ''Constructor''"
    by (simp add: too_similar_def constructor_tokens new_Set_Nil jaccard_empty)
  then show ?thesis by (simp add: ensureNovelty_char)
qed

end
